theory Spec2Isabelle
  imports Main
begin

section \<open>Python strings\<close>

text \<open>
  Strings are lists of characters; a character stands for a code point below 256.
  The helpers below are the string methods the scripts call.
\<close>

definition LF :: char where
  "LF = CHR 0x0A"

definition CR :: char where
  "CR = CHR 0x0D"

text \<open>\<^verbatim>\<open>str.isspace\<close> on one character.\<close>

definition is_space :: "char \<Rightarrow> bool" where
  "is_space c =
     (let n = (of_char c :: nat)
      in (9 \<le> n \<and> n \<le> 13) \<or> (28 \<le> n \<and> n \<le> 32) \<or> n = 133 \<or> n = 160)"

text \<open>\<^verbatim>\<open>s.strip()\<close>\<close>

definition strip :: "string \<Rightarrow> string" where
  "strip s = rev (dropWhile is_space (rev (dropWhile is_space s)))"



text \<open>\<^verbatim>\<open>s.startswith(p)\<close> and \<^verbatim>\<open>p in s\<close>\<close>

fun startswith :: "string \<Rightarrow> string \<Rightarrow> bool" where
  "startswith s [] = True"
| "startswith [] (p # ps) = False"
| "startswith (c # cs) (p # ps) = (c = p \<and> startswith cs ps)"

fun contains :: "string \<Rightarrow> string \<Rightarrow> bool" where
  "contains [] p = (p = [])"
| "contains (c # cs) p = (startswith (c # cs) p \<or> contains cs p)"


fun split :: "char \<Rightarrow> string \<Rightarrow> string list" where
  "split sep [] = [[]]"
| "split sep (c # cs) =
     (if c = sep then [] # split sep cs
      else (case split sep cs of [] \<Rightarrow> [[c]] | part # parts \<Rightarrow> (c # part) # parts))"






section \<open>Files\<close>

text \<open>
  A CSV file read or written through pandas is kept as its list of lines, each line the
  list of its fields; a file system maps a path to the content of the file there.
\<close>

type_synonym csv_file = "string list list"

type_synonym files = "string \<rightharpoonup> csv_file"

text \<open>\<^verbatim>\<open>str(n)\<close> for an integer: decimal digits, with a minus sign below zero.\<close>

definition digit_char :: "nat \<Rightarrow> char" where
  "digit_char d = char_of (48 + d)"

fun str_nat :: "nat \<Rightarrow> string" where
  "str_nat n = (if n < 10 then [digit_char n] else str_nat (n div 10) @ [digit_char (n mod 10)])"

declare str_nat.simps [simp del]

definition str_int :: "int \<Rightarrow> string" where
  "str_int i = (if i < 0 then CHR ''-'' # str_nat (nat (- i)) else str_nat (nat i))"

text \<open>The values a row handed to pandas holds, and the text \<^verbatim>\<open>to_csv\<close> writes for each.\<close>

datatype pyval = PStr string | PInt int

fun csv_field :: "pyval \<Rightarrow> string" where
  "csv_field (PStr s) = s"
| "csv_field (PInt i) = str_int i"

text \<open>\<^verbatim>\<open>open(path, 'a')\<close> followed by \<^verbatim>\<open>DataFrame([row]).to_csv(f, header=False, index=False)\<close>\<close>

definition append_row :: "string \<Rightarrow> pyval list \<Rightarrow> files \<Rightarrow> files" where
  "append_row path row fs =
     fs(path \<mapsto> (case fs path of None \<Rightarrow> [] | Some ls \<Rightarrow> ls) @ [map csv_field row])"

section \<open>Requests, console and clock\<close>

text \<open>
  \<^verbatim>\<open>requests.get(url)\<close> either raises a \<^verbatim>\<open>RequestException\<close> or returns a response with a
  status code and a body; the body is kept as what the HTML parser finds in it. The web is
  a function from the URL to what the request does.
\<close>

datatype 'page response = Raises string | Response nat 'page

datatype exn =
    RequestException string
  | HTTPError nat
  | KeyError string
  | FileNotFoundError string
  | ValueError string
  | TypeError string
  | AttributeError string
  | IndexError string
  | EmptyDataError string
  | UnboundLocalError string

datatype delay = Fixed nat | Uniform nat nat

datatype colour = Green | Yellow | Red | Plain

text \<open>
  What a run does, in order: a GET request, a \<^verbatim>\<open>time.sleep\<close>, a prompt of \<^verbatim>\<open>input\<close>, a line
  printed (a text, a text followed by an exception, a list in a colour, or a text in a
  colour).
\<close>

datatype event =
    Get string
  | Sleep delay
  | Prompt string
  | Print string
  | PrintExc string exn
  | PrintRow colour "string list"
  | PrintIn colour string

fun is_get :: "event \<Rightarrow> bool" where
  "is_get (Get u) = True"
| "is_get e = False"

fun is_sleep :: "event \<Rightarrow> bool" where
  "is_sleep (Sleep d) = True"
| "is_sleep e = False"


section \<open>year\_to\_year\_download.py and alltime\_rookie\_contracts.py\<close>




definition rookie_headers :: "string list" where
  "rookie_headers =
     [''YR_1'', ''Rank'', ''Player'', ''Pos'', ''Team Signed With'', ''Age At Signing'', ''Yrs'',
      ''Value'', ''AAV'', ''Practical GTD'', ''Type'']"











text \<open>\<^verbatim>\<open>create_csv\<close>: the rows handed to the CSV writer, header first, and the line printed.\<close>

definition rooks_filename :: "int \<Rightarrow> int \<Rightarrow> string" where
  "rooks_filename start_year end_year =
     ''rooks'' @ str_int start_year @ ''-'' @ str_int end_year @ ''.csv''"

definition create_csv :: "string list list \<Rightarrow> int \<Rightarrow> int \<Rightarrow> files \<Rightarrow> files \<times> event list" where
  "create_csv data start_year end_year fs =
     (let filename = rooks_filename start_year end_year
      in (fs(filename \<mapsto> rookie_headers # data),
          [Print (''Data has been written to '' @ filename)]))"





definition create_csv_all_time :: "string list list \<Rightarrow> string \<Rightarrow> files \<Rightarrow> files \<times> event list" where
  "create_csv_all_time data filename fs =
     (fs(filename \<mapsto> rookie_headers # data),
      [Print (''Data has been written to '' @ filename)])"


section \<open>hw2-download.py\<close>

text \<open>
  A Baseball Reference page: the \<^verbatim>\<open>href\<close>s of its anchors whose string is Boxscore, and its
  comments, each with its text and the tables the parser finds in that text; a table has
  its \<^verbatim>\<open>id\<close> attribute when there is one and its rows; a row has the text of its \<^verbatim>\<open>th\<close> with
  data-stat inning when there is one and the texts of its \<^verbatim>\<open>td\<close> cells.
\<close>

record pbp_row =
  inning_cell :: "string option"
  td_cells :: "string list"

record pbp_table =
  table_id :: "string option"
  pbp_rows :: "pbp_row list"

record bref_page =
  boxscore_hrefs :: "string list"
  page_comments :: "(string \<times> pbp_table list) list"

type_synonym bref = "string \<Rightarrow> bref_page response"

text \<open>A \<^verbatim>\<open>dict\<close> with string keys, latest entry first.\<close>

type_synonym pydict = "(string \<times> pyval) list"

definition get_game_urls :: "bref \<Rightarrow> string \<Rightarrow> (exn + string list) \<times> event list" where
  "get_game_urls web league_schedule_url =
     (case web league_schedule_url of
        Raises m \<Rightarrow> (Inl (RequestException m), [Get league_schedule_url])
      | Response status page \<Rightarrow>
          (Inr (map (\<lambda>href. ''https://www.baseball-reference.com'' @ href) (boxscore_hrefs page)),
           [Get league_schedule_url]))"

definition is_pbp_table :: "pbp_table \<Rightarrow> bool" where
  "is_pbp_table t = contains (case table_id t of None \<Rightarrow> [] | Some i \<Rightarrow> i) ''play_by_play''"

fun find_pbp_table :: "(string \<times> pbp_table list) list \<Rightarrow> pbp_table option" where
  "find_pbp_table [] = None"
| "find_pbp_table ((comment, tables) # comments) =
     (if contains comment ''play_by_play'' then
        (case filter is_pbp_table tables of
           t # ts \<Rightarrow> Some t
         | [] \<Rightarrow> find_pbp_table comments)
      else find_pbp_table comments)"

definition scrape_single_game :: "bref \<Rightarrow> string \<Rightarrow> (exn + pbp_table option) \<times> event list" where
  "scrape_single_game web url =
     (case web url of
        Raises m \<Rightarrow> (Inl (RequestException m), [Get url])
      | Response status page \<Rightarrow> (Inr (find_pbp_table (page_comments page)), [Get url]))"

text \<open>
  \<^verbatim>\<open>re.sub(r'\)(.*)', ')', pitch_code)\<close>: from a closing parenthesis to the end of its line
  only the parenthesis stays.
\<close>

function clean_pitch_code :: "string \<Rightarrow> string" where
  "clean_pitch_code [] = []"
| "clean_pitch_code (c # cs) =
     (if c = CHR '')'' then c # clean_pitch_code (dropWhile (\<lambda>d. d \<noteq> LF) cs)
      else c # clean_pitch_code cs)"
  by pat_completeness auto
termination
  by (relation "measure length") (auto simp: less_Suc_eq_le length_dropWhile_le)

text \<open>\<^verbatim>\<open>re.sub(r'[^\x00-\x7F]+', '', col)\<close>\<close>

definition ascii_only :: "string \<Rightarrow> string" where
  "ascii_only col = filter (\<lambda>c. (of_char c :: nat) < 128) col"

definition make_play :: "string \<Rightarrow> string list \<Rightarrow> pydict" where
  "make_play inning cleaned_cols =
     [(''Inning'', PStr inning),
      (''Score'', PStr (cleaned_cols ! 0)),
      (''Outs'', PStr (cleaned_cols ! 1)),
      (''Runners'', PStr (cleaned_cols ! 2)),
      (''Pitch Code'', PStr (clean_pitch_code (cleaned_cols ! 3))),
      (''Runs Scored'', PStr (cleaned_cols ! 4)),
      (''Team'', PStr (cleaned_cols ! 5)),
      (''Batter'', PStr (cleaned_cols ! 6)),
      (''Pitcher'', PStr (cleaned_cols ! 7)),
      (''Change WP'', PStr (cleaned_cols ! 8)),
      (''Current WP'', PStr (cleaned_cols ! 9)),
      (''Description'', PStr (if length cleaned_cols > 10 then cleaned_cols ! 10 else []))]"

text \<open>The loop of \<^verbatim>\<open>extract_inning_info\<close>; the indices above are read only when there are ten cells.\<close>

fun extract_rows :: "string \<Rightarrow> pbp_row list \<Rightarrow> pydict list" where
  "extract_rows inning [] = []"
| "extract_rows inning (row # rows) =
     (let inning = (case inning_cell row of None \<Rightarrow> inning | Some t \<Rightarrow> strip t);
          cols = map strip (td_cells row)
      in if length cols \<ge> 10 then make_play inning (map ascii_only cols) # extract_rows inning rows
         else extract_rows inning rows)"

definition extract_inning_info :: "pbp_table \<Rightarrow> pydict list" where
  "extract_inning_info t = extract_rows [] (pbp_rows t)"

definition play_headers :: "string list" where
  "play_headers =
     [''Index'', ''Inning'', ''Score'', ''Outs'', ''Runners'', ''Pitch Code'', ''Runs Scored'', ''Team'',
      ''Batter'', ''Pitcher'', ''Change WP'', ''Current WP'', ''Description'']"

text \<open>
  \<^verbatim>\<open>DictWriter.writerow\<close>: a key outside the field names raises \<^verbatim>\<open>ValueError\<close>; a field name
  the dict lacks is written empty.
\<close>

definition dict_to_list :: "string list \<Rightarrow> pydict \<Rightarrow> exn + string list" where
  "dict_to_list fieldnames rowdict =
     (if list_ex (\<lambda>(k, v). k \<notin> set fieldnames) rowdict then
        Inl (ValueError ''dict contains fields not in fieldnames'')
      else Inr (map (\<lambda>k. case map_of rowdict k of None \<Rightarrow> [] | Some v \<Rightarrow> csv_field v) fieldnames))"

text \<open>The loop of \<^verbatim>\<open>write_to_csv\<close>: the lines written so far, the index, the rows left.\<close>

fun write_rows :: "string list list \<Rightarrow> int \<Rightarrow> pydict list \<Rightarrow> exn option \<times> string list list" where
  "write_rows written idx [] = (None, written)"
| "write_rows written idx (row # rows) =
     (case dict_to_list play_headers (row @ [(''Index'', PInt idx)]) of
        Inl e \<Rightarrow> (Some e, written)
      | Inr line \<Rightarrow> write_rows (written @ [line]) (idx + 1) rows)"

definition write_to_csv :: "pydict list \<Rightarrow> string \<Rightarrow> files \<Rightarrow> exn option \<times> files" where
  "write_to_csv data filename fs =
     (let (e, written) = write_rows [play_headers] 1 data
      in (e, fs(filename \<mapsto> written)))"

text \<open>
  The checkpoint \<^verbatim>\<open>processed_games.txt\<close> is a text file: its content when it exists. Reading
  in text mode turns \<^verbatim>\<open>\r\n\<close> and \<^verbatim>\<open>\r\<close> into \<^verbatim>\<open>\n\<close>; \<^verbatim>\<open>splitlines\<close> cuts at every line boundary.
\<close>

fun universal_newlines :: "string \<Rightarrow> string" where
  "universal_newlines [] = []"
| "universal_newlines [c] = (if c = CR then [LF] else [c])"
| "universal_newlines (c # d # cs) =
     (if c = CR \<and> d = LF then LF # universal_newlines cs
      else if c = CR then LF # universal_newlines (d # cs)
      else c # universal_newlines (d # cs))"

definition is_linebreak :: "char \<Rightarrow> bool" where
  "is_linebreak c =
     (let n = (of_char c :: nat) in (10 \<le> n \<and> n \<le> 13) \<or> (28 \<le> n \<and> n \<le> 30) \<or> n = 133)"

fun splitlines :: "string \<Rightarrow> string list" where
  "splitlines [] = []"
| "splitlines [c] = (if is_linebreak c then [[]] else [[c]])"
| "splitlines (c # d # cs) =
     (if c = CR \<and> d = LF then [] # splitlines cs
      else if is_linebreak c then [] # splitlines (d # cs)
      else (case splitlines (d # cs) of [] \<Rightarrow> [[c]] | l # ls \<Rightarrow> (c # l) # ls))"

definition is_url_processed :: "string option \<Rightarrow> string \<Rightarrow> bool" where
  "is_url_processed processed_file url =
     (case processed_file of
        None \<Rightarrow> False
      | Some content \<Rightarrow> url \<in> set (splitlines (universal_newlines content)))"

definition mark_url_as_processed :: "string option \<Rightarrow> string \<Rightarrow> string option" where
  "mark_url_as_processed processed_file url =
     Some ((case processed_file of None \<Rightarrow> [] | Some content \<Rightarrow> content) @ url @ [LF])"

text \<open>
  The loop of \<^verbatim>\<open>scrape_all_games\<close> from the game numbered \<open>i\<close>: the exception that ended it or
  the plays gathered, the checkpoint after it, and what it did.
\<close>

fun scrape_games ::
  "bref \<Rightarrow> int \<Rightarrow> string list \<Rightarrow> string option \<Rightarrow> pydict list
     \<Rightarrow> (exn + pydict list) \<times> string option \<times> event list" where
  "scrape_games web i [] processed all_play_data = (Inr all_play_data, processed, [])"
| "scrape_games web i (game_url # game_urls) processed all_play_data =
     (if is_url_processed processed game_url then
        (let (r, processed', evs) = scrape_games web (i + 1) game_urls processed all_play_data
         in (r, processed', Print (''Skipping already processed game: '' @ game_url) # evs))
      else
        (let announce = Print (str_int i @ ''. Scraping play-by-play data from '' @ game_url)
         in case scrape_single_game web game_url of
              (Inl e, evs) \<Rightarrow> (Inl e, processed, announce # evs)
            | (Inr t, evs) \<Rightarrow>
                (let play_data = (case t of None \<Rightarrow> [] | Some t \<Rightarrow> extract_inning_info t);
                     found = (play_data \<noteq> []);
                     processed1 = (if found then mark_url_as_processed processed game_url else processed);
                     (r, processed', evs') =
                       scrape_games web (i + 1) game_urls processed1
                         (if found then all_play_data @ play_data else all_play_data)
                 in (r, processed',
                     announce # evs
                       @ (if found then []
                          else [Print (''No play-by-play data found for '' @ game_url)])
                       @ [Sleep (Fixed 5)] @ evs'))))"

definition scrape_all_games ::
  "bref \<Rightarrow> string \<Rightarrow> string option \<Rightarrow> files \<Rightarrow> exn option \<times> event list \<times> string option \<times> files" where
  "scrape_all_games web league_schedule_url processed fs =
     (case get_game_urls web league_schedule_url of
        (Inl e, evs) \<Rightarrow> (Some e, evs, processed, fs)
      | (Inr game_urls, evs) \<Rightarrow>
          (case scrape_games web 1 game_urls processed [] of
             (Inl e, processed', evs') \<Rightarrow> (Some e, evs @ evs', processed', fs)
           | (Inr all_play_data, processed', evs') \<Rightarrow>
               if all_play_data \<noteq> [] then
                 (let (e, fs') = write_to_csv all_play_data ''play_by_play.csv'' fs
                  in (e, evs @ evs', processed', fs'))
               else (None, evs @ evs' @ [Print ''No play-by-play data to write.''], processed', fs)))"

section \<open>cbb\_stat\_scraper.py: saving a player\<close>

definition player_headers :: "string list" where
  "player_headers =
     [''Player'', ''Seasons Played'', ''Position'', ''G'', ''GS'', ''MP'', ''FG'', ''FGA'', ''FG%'',
      ''3P'', ''3PA'', ''3P%'', ''2P'', ''2PA'', ''2P%'', ''eFG%'', ''FT'', ''FTA'', ''FT%'', ''ORB'',
      ''DRB'', ''TRB'', ''AST'', ''STL'', ''BLK'', ''TOV'', ''PF'', ''PTS'']"

text \<open>The list \<^verbatim>\<open>player_data\<close> built by \<^verbatim>\<open>save_player_data\<close>.\<close>

definition player_data :: "string \<Rightarrow> int \<Rightarrow> string \<Rightarrow> string list \<Rightarrow> pyval list" where
  "player_data player_name seasons_played position career_stats =
     (let position = (if strip position = [] then ''Unknown'' else position)
      in [PStr player_name, PInt seasons_played, PStr position]
           @ map PStr (filter (\<lambda>stat. stat \<noteq> ''N/A'') career_stats))"

definition save_player_data ::
  "string \<Rightarrow> int \<Rightarrow> string \<Rightarrow> string list \<Rightarrow> string \<Rightarrow> bool \<Rightarrow> files \<Rightarrow> files" where
  "save_player_data player_name seasons_played position career_stats output_csv first_player fs =
     (let fs1 = (if first_player then fs(output_csv \<mapsto> [player_headers]) else fs)
      in append_row output_csv
           (player_data player_name seasons_played position career_stats) fs1)"

text \<open>The last line of a file, when it has one.\<close>

definition last_line :: "files \<Rightarrow> string \<Rightarrow> string list option" where
  "last_line fs path =
     (case fs path of None \<Rightarrow> None | Some ls \<Rightarrow> (if ls = [] then None else Some (last ls)))"

section \<open>cbb\_stat\_scraper.py: the checkpoint and the main loop\<close>




































section \<open>nba\_names.py\<close>









section \<open>createCSV.py\<close>

text \<open>
  A play of the play-by-play data, with the columns the script reads. The identifier of the
  play and the scores are whole numbers, a score being NaN on a play without one; the win
  probability and the score differential are passed through, whatever stands for them. A
  frame has its column names and its plays; the value of a play under a column the frame
  does not have is not read.
\<close>

record 'f play =
  p_game_id :: string
  p_play_id :: int
  p_wp :: 'f
  p_posteam :: "string option"
  p_defteam :: "string option"
  p_posteam_score :: "int option"
  p_defteam_score :: "int option"
  p_score_differential_post :: 'f
  p_home_team :: string
  p_away_team :: string














section \<open>The CSV text of a file\<close>

text \<open>
  \<^verbatim>\<open>csv.writer\<close> with the default dialect, as the scripts open it: fields joined by commas, a
  field quoted when it holds a comma, a quote, a carriage return or a line feed, a quote
  inside a quoted field doubled, every record ended by carriage return and line feed, and a
  record that would be empty for a single empty field written as two quotes.
\<close>

definition DQ :: char where
  "DQ = CHR 0x22"

definition COMMA :: char where
  "COMMA = CHR '',''"

definition csv_special :: "char \<Rightarrow> bool" where
  "csv_special c = (c = COMMA \<or> c = DQ \<or> c = CR \<or> c = LF)"

fun csv_escape :: "string \<Rightarrow> string" where
  "csv_escape [] = []"
| "csv_escape (c # cs) = (if c = DQ then DQ # DQ # csv_escape cs else c # csv_escape cs)"

definition csv_write_field :: "string \<Rightarrow> string" where
  "csv_write_field f = (if list_ex csv_special f then DQ # csv_escape f @ [DQ] else f)"

fun csv_join :: "string list \<Rightarrow> string" where
  "csv_join [] = []"
| "csv_join [f] = f"
| "csv_join (f # g # fs) = f @ COMMA # csv_join (g # fs)"

definition csv_writerow :: "string list \<Rightarrow> string" where
  "csv_writerow row =
     (let rec = csv_join (map csv_write_field row)
      in (if row \<noteq> [] \<and> rec = [] then [DQ, DQ] else rec) @ [CR, LF])"

definition csv_writerows :: "string list list \<Rightarrow> string" where
  "csv_writerows rows = concat (map csv_writerow rows)"

text \<open>
  \<^verbatim>\<open>csv.reader\<close> with the default dialect on a file opened with \<^verbatim>\<open>newline=''\<close>: the parser reads
  the file line by line, a line ending after a line feed, after a carriage return that no
  line feed follows, and at the end of the file; it takes every character of the line and
  then the end of the line (\<open>None\<close> below). A field may grow to 131072 characters.
\<close>

datatype csv_state =
    START_RECORD | START_FIELD | IN_FIELD | IN_QUOTED_FIELD | QUOTE_IN_QUOTED_FIELD | EAT_CRNL

record reader =
  rd_state :: csv_state
  rd_field :: string
  rd_fields :: "string list"

definition parse_reset :: reader where
  "parse_reset = \<lparr>rd_state = START_RECORD, rd_field = [], rd_fields = []\<rparr>"

definition field_limit :: nat where
  "field_limit = 131072"

definition parse_add_char :: "reader \<Rightarrow> char \<Rightarrow> string + reader" where
  "parse_add_char r c =
     (if length (rd_field r) \<ge> field_limit then Inl ''field larger than field limit (131072)''
      else Inr (r\<lparr>rd_field := rd_field r @ [c]\<rparr>))"

definition parse_save_field :: "reader \<Rightarrow> reader" where
  "parse_save_field r = r\<lparr>rd_fields := rd_fields r @ [rd_field r], rd_field := []\<rparr>"

definition set_state :: "csv_state \<Rightarrow> string + reader \<Rightarrow> string + reader" where
  "set_state s x = (case x of Inl e \<Rightarrow> Inl e | Inr r \<Rightarrow> Inr (r\<lparr>rd_state := s\<rparr>))"

text \<open>The cases of \<^verbatim>\<open>parse_process_char\<close> for the states START\_FIELD and after.\<close>

definition process_start_field :: "reader \<Rightarrow> char option \<Rightarrow> string + reader" where
  "process_start_field r tok =
     (case tok of
        None \<Rightarrow> Inr ((parse_save_field r)\<lparr>rd_state := START_RECORD\<rparr>)
      | Some c \<Rightarrow>
          if c = LF \<or> c = CR then Inr ((parse_save_field r)\<lparr>rd_state := EAT_CRNL\<rparr>)
          else if c = DQ then Inr (r\<lparr>rd_state := IN_QUOTED_FIELD\<rparr>)
          else if c = COMMA then Inr ((parse_save_field r)\<lparr>rd_state := START_FIELD\<rparr>)
          else set_state IN_FIELD (parse_add_char r c))"

definition parse_process_char :: "reader \<Rightarrow> char option \<Rightarrow> string + reader" where
  "parse_process_char r tok =
     (case rd_state r of
        START_RECORD \<Rightarrow>
          (case tok of
             None \<Rightarrow> Inr r
           | Some c \<Rightarrow>
               if c = LF \<or> c = CR then Inr (r\<lparr>rd_state := EAT_CRNL\<rparr>)
               else process_start_field r tok)
      | START_FIELD \<Rightarrow> process_start_field r tok
      | IN_FIELD \<Rightarrow>
          (case tok of
             None \<Rightarrow> Inr ((parse_save_field r)\<lparr>rd_state := START_RECORD\<rparr>)
           | Some c \<Rightarrow>
               if c = LF \<or> c = CR then Inr ((parse_save_field r)\<lparr>rd_state := EAT_CRNL\<rparr>)
               else if c = COMMA then Inr ((parse_save_field r)\<lparr>rd_state := START_FIELD\<rparr>)
               else parse_add_char r c)
      | IN_QUOTED_FIELD \<Rightarrow>
          (case tok of
             None \<Rightarrow> Inr r
           | Some c \<Rightarrow>
               if c = DQ then Inr (r\<lparr>rd_state := QUOTE_IN_QUOTED_FIELD\<rparr>)
               else parse_add_char r c)
      | QUOTE_IN_QUOTED_FIELD \<Rightarrow>
          (case tok of
             None \<Rightarrow> Inr ((parse_save_field r)\<lparr>rd_state := START_RECORD\<rparr>)
           | Some c \<Rightarrow>
               if c = DQ then set_state IN_QUOTED_FIELD (parse_add_char r c)
               else if c = COMMA then Inr ((parse_save_field r)\<lparr>rd_state := START_FIELD\<rparr>)
               else if c = LF \<or> c = CR then Inr ((parse_save_field r)\<lparr>rd_state := EAT_CRNL\<rparr>)
               else set_state IN_FIELD (parse_add_char r c))
      | EAT_CRNL \<Rightarrow>
          (case tok of
             None \<Rightarrow> Inr (r\<lparr>rd_state := START_RECORD\<rparr>)
           | Some c \<Rightarrow>
               if c = LF \<or> c = CR then Inr r
               else Inl ''new-line character seen in unquoted field''))"

text \<open>The line ends after \<open>c\<close>, the characters \<open>cs\<close> following it in the file.\<close>

definition eol_after :: "char \<Rightarrow> string \<Rightarrow> bool" where
  "eol_after c cs = (c = LF \<or> (c = CR \<and> \<not> (cs \<noteq> [] \<and> hd cs = LF)) \<or> cs = [])"

text \<open>
  The records the reader yields from the rest of a file, the parser being in state \<open>r\<close>: a
  record is yielded when the parser is back at the start of a record at the end of a line,
  and the parser is reset for the next one; at the end of the file an unfinished quoted
  field is taken as it stands.
\<close>

fun read_chars :: "reader \<Rightarrow> string \<Rightarrow> string + string list list" where
  "read_chars r [] =
     (if rd_field r \<noteq> [] \<or> rd_state r = IN_QUOTED_FIELD then Inr [rd_fields (parse_save_field r)]
      else Inr [])"
| "read_chars r (c # cs) =
     (case parse_process_char r (Some c) of
        Inl e \<Rightarrow> Inl e
      | Inr r1 \<Rightarrow>
          if eol_after c cs then
            (case parse_process_char r1 None of
               Inl e \<Rightarrow> Inl e
             | Inr r2 \<Rightarrow>
                 if rd_state r2 = START_RECORD then
                   (case read_chars parse_reset cs of
                      Inl e \<Rightarrow> Inl e
                    | Inr records \<Rightarrow> Inr (rd_fields r2 # records))
                 else read_chars r2 cs)
          else read_chars r1 cs)"

definition csv_reader :: "string \<Rightarrow> string + string list list" where
  "csv_reader text = read_chars parse_reset text"

section \<open>Predicates and inputs used in the results\<close>





text \<open>
  Example pages: a listing with one rookie row of ten cells and a player link, whose page
  names the draft year; and a listing whose rookie row has ten cells and no link.
\<close>

definition ten_cells :: "string list" where
  "ten_cells =
     [''1'', ''A B'', ''PG'', ''XYZ'', ''22'', ''4'', ''$100'', ''$25'', ''$90'', ''Rookie Extension'']"







text \<open>The number of requests in a run, and a run without a sleep.\<close>

definition count_gets :: "event list \<Rightarrow> nat" where
  "count_gets evs = length (filter is_get evs)"

definition no_sleep :: "event list \<Rightarrow> bool" where
  "no_sleep evs = (\<not> list_ex is_sleep evs)"


















text \<open>Every field of every line fits the limit of the reader.\<close>

definition fields_ok :: "string list list \<Rightarrow> bool" where
  "fields_ok rows = list_all (list_all (\<lambda>f. length f \<le> field_limit)) rows"

text \<open>
  A dict with the twelve keys of a play, in the order \<^verbatim>\<open>extract_inning_info\<close> gives them; the
  lines \<^verbatim>\<open>write_to_csv\<close> makes of such dicts, numbered from \<open>idx\<close>; and a play.
\<close>

definition has_play_keys :: "pydict \<Rightarrow> bool" where
  "has_play_keys d = (map fst d = tl play_headers)"

fun indexed_lines :: "int \<Rightarrow> pydict list \<Rightarrow> string list list" where
  "indexed_lines idx [] = []"
| "indexed_lines idx (row # rows) =
     (str_int idx # map (csv_field \<circ> snd) row) # indexed_lines (idx + 1) rows"

definition a_play :: pydict where
  "a_play =
     [(''Inning'', PStr ''t1''), (''Score'', PStr ''0-0''), (''Outs'', PStr ''0''),
      (''Runners'', PStr ''---''), (''Pitch Code'', PStr ''3,(1-1)''), (''Runs Scored'', PStr []),
      (''Team'', PStr ''NYY''), (''Batter'', PStr ''A. Batter''), (''Pitcher'', PStr ''B. Pitcher''),
      (''Change WP'', PStr ''2%''), (''Current WP'', PStr ''52%''),
      (''Description'', PStr ''Single to CF'')]"

section \<open>Results\<close>

subsection \<open>The row written for a player\<close>

lemma last_line_append_row:
  "last_line (append_row path row fs) path = Some (map csv_field row)"
  by (simp add: last_line_def append_row_def)

lemma map_csv_field_PStr: "map (csv_field \<circ> PStr) xs = xs"
  by (induction xs) simp_all

lemma length_player_headers: "length player_headers = 28"
  by (simp add: player_headers_def)

text \<open>
  C10, as stated, at an empty position: the row written for the call does not hold the
  position that was passed, it holds the text Unknown.
\<close>

theorem save_player_data_blank_position_counterexample:
  "last_line (save_player_data ''A B'' 4 '''' [''31'', ''N/A''] ''player_stats.csv'' False Map.empty)
     ''player_stats.csv''
   \<noteq> Some (map csv_field ([PStr ''A B'', PInt 4, PStr '''']
                @ map PStr (filter (\<lambda>stat. stat \<noteq> ''N/A'') [''31'', ''N/A''])))"
  by (simp add: save_player_data_def last_line_append_row player_data_def strip_def)

text \<open>
  C10, amended: every call of \<^verbatim>\<open>save_player_data\<close> appends exactly one row, made of the
  player name, the seasons played and the position (the text Unknown in place of a position
  that is empty or only white space), followed by the career stats that are not N/A, in
  their order; the lines before it are the header line alone for a first player and the
  earlier content of the file otherwise. The row has at most as many fields as there are
  stats plus three, and the header line has 28.
\<close>

theorem save_player_data_row:
  "save_player_data player_name seasons_played position career_stats output_csv first_player fs
     output_csv
   = Some ((if first_player then [player_headers]
            else (case fs output_csv of None \<Rightarrow> [] | Some ls \<Rightarrow> ls))
           @ [[player_name, str_int seasons_played,
               (if strip position = [] then ''Unknown'' else position)]
              @ filter (\<lambda>stat. stat \<noteq> ''N/A'') career_stats])
   \<and> length ([player_name, str_int seasons_played,
               (if strip position = [] then ''Unknown'' else position)]
              @ filter (\<lambda>stat. stat \<noteq> ''N/A'') career_stats)
       \<le> 3 + length career_stats
   \<and> length player_headers = 28"
  by (simp add: save_player_data_def append_row_def player_data_def Let_def
      length_player_headers map_csv_field_PStr)

subsection \<open>Input of the year-to-year script\<close>




subsection \<open>The rows of the rookie-contract files\<close>


















subsection \<open>Requests, sleeps and failures\<close>

lemma no_sleep_simps [simp]:
  "no_sleep []" "no_sleep (e # evs) = (\<not> is_sleep e \<and> no_sleep evs)"
  "no_sleep (evs @ evs') = (no_sleep evs \<and> no_sleep evs')"
  by (auto simp: no_sleep_def)

lemma count_gets_simps [simp]:
  "count_gets [] = 0" "count_gets (e # evs) = (if is_get e then 1 else 0) + count_gets evs"
  "count_gets (evs @ evs') = count_gets evs + count_gets evs'"
  by (auto simp: count_gets_def)
























subsection \<open>Missing input\<close>




subsection \<open>No request twice\<close>





subsection \<open>The checkpoints\<close>

lemma LF_linebreak [simp]: "is_linebreak LF" "LF \<noteq> CR" "CR \<noteq> LF" "is_linebreak CR"
  by (simp_all add: is_linebreak_def LF_def CR_def)

lemma not_linebreak_CR [simp]: "\<not> is_linebreak c \<Longrightarrow> c \<noteq> CR"
  by auto

lemma splitlines_Nil_iff [simp]: "splitlines s = [] \<longleftrightarrow> s = []"
  by (induction s rule: splitlines.induct) (auto split: list.splits)

lemma splitlines_LF [simp]: "splitlines (LF # b) = [] # splitlines b"
  by (cases b) simp_all

















subsection \<open>The winner column of the game files\<close>











subsection \<open>Writing a CSV file and reading it back\<close>

lemma csv_chars [simp]:
  "DQ \<noteq> CR" "DQ \<noteq> LF" "DQ \<noteq> COMMA" "COMMA \<noteq> CR" "COMMA \<noteq> LF" "COMMA \<noteq> DQ"
  "CR \<noteq> LF" "CR \<noteq> DQ" "CR \<noteq> COMMA" "LF \<noteq> CR" "LF \<noteq> DQ" "LF \<noteq> COMMA"
  by (simp_all add: DQ_def CR_def LF_def COMMA_def)

lemma eol_after_simps [simp]:
  "eol_after LF cs" "\<not> eol_after CR (LF # cs)"
  "c \<noteq> LF \<Longrightarrow> c \<noteq> CR \<Longrightarrow> cs \<noteq> [] \<Longrightarrow> \<not> eol_after c cs"
  by (auto simp: eol_after_def)

lemma read_quoted:
  assumes "length acc + length f \<le> field_limit" "rest \<noteq> []"
  shows "read_chars \<lparr>rd_state = IN_QUOTED_FIELD, rd_field = acc, rd_fields = fs\<rparr>
           (csv_escape f @ DQ # rest)
         = read_chars \<lparr>rd_state = QUOTE_IN_QUOTED_FIELD, rd_field = acc @ f, rd_fields = fs\<rparr> rest"
  using assms
proof (induction f arbitrary: acc)
  case Nil
  then show ?case by (simp add: parse_process_char_def)
next
  case (Cons c cs)
  from Cons.prems have l: "length acc < field_limit" "length (acc @ [c]) + length cs \<le> field_limit"
    by auto
  note ih = Cons.IH [OF l(2) Cons.prems(2)]
  show ?case
  proof (cases "c = DQ")
    case True
    with l(1) ih show ?thesis
      by (simp add: parse_process_char_def parse_add_char_def set_state_def)
  next
    case False
    with l(1) ih show ?thesis
      by (simp add: parse_process_char_def parse_add_char_def)
  qed
qed

lemma read_unquoted:
  assumes "\<not> list_ex csv_special f" "length acc + length f \<le> field_limit" "rest \<noteq> []"
  shows "read_chars \<lparr>rd_state = IN_FIELD, rd_field = acc, rd_fields = fs\<rparr> (f @ rest)
         = read_chars \<lparr>rd_state = IN_FIELD, rd_field = acc @ f, rd_fields = fs\<rparr> rest"
  using assms
proof (induction f arbitrary: acc)
  case Nil
  then show ?case by simp
next
  case (Cons c cs)
  from Cons.prems have l: "length acc < field_limit" "length (acc @ [c]) + length cs \<le> field_limit"
    by auto
  from Cons.prems(1) have sp: "\<not> csv_special c" and cs: "\<not> list_ex csv_special cs"
    by simp_all
  from sp have c: "c \<noteq> COMMA" "c \<noteq> DQ" "c \<noteq> CR" "c \<noteq> LF"
    by (auto simp: csv_special_def)
  from Cons.IH [OF cs l(2) Cons.prems(3)] l(1) c Cons.prems(3) show ?case
    by (simp add: parse_process_char_def parse_add_char_def)
qed

lemma read_field:
  assumes "length f \<le> field_limit" "rest \<noteq> []"
  shows "\<exists>s. read_chars \<lparr>rd_state = START_FIELD, rd_field = [], rd_fields = fs\<rparr>
               (csv_write_field f @ rest)
             = read_chars \<lparr>rd_state = s, rd_field = f, rd_fields = fs\<rparr> rest
           \<and> (s = QUOTE_IN_QUOTED_FIELD \<or> (s = IN_FIELD \<and> f \<noteq> []) \<or> (s = START_FIELD \<and> f = []))"
proof (cases "list_ex csv_special f")
  case True
  have "read_chars \<lparr>rd_state = START_FIELD, rd_field = [], rd_fields = fs\<rparr>
               (DQ # csv_escape f @ DQ # rest)
        = read_chars \<lparr>rd_state = IN_QUOTED_FIELD, rd_field = [], rd_fields = fs\<rparr>
               (csv_escape f @ DQ # rest)"
    by (simp add: parse_process_char_def process_start_field_def)
  with True read_quoted [of "[]" f rest fs] assms show ?thesis
    by (auto simp: csv_write_field_def)
next
  case False
  show ?thesis
  proof (cases f)
    case Nil
    then show ?thesis by (intro exI [of _ START_FIELD]) (simp add: csv_write_field_def)
  next
    case (Cons c cs)
    with False have sp: "\<not> csv_special c" and cs: "\<not> list_ex csv_special cs"
      by simp_all
    from sp have c: "c \<noteq> COMMA" "c \<noteq> DQ" "c \<noteq> CR" "c \<noteq> LF"
      by (auto simp: csv_special_def)
    from assms Cons have l: "length [c] + length cs \<le> field_limit" by simp
    have "0 < field_limit" by (simp add: field_limit_def)
    with c assms(2) have
      "read_chars \<lparr>rd_state = START_FIELD, rd_field = [], rd_fields = fs\<rparr> (c # cs @ rest)
       = read_chars \<lparr>rd_state = IN_FIELD, rd_field = [c], rd_fields = fs\<rparr> (cs @ rest)"
      by (simp add: parse_process_char_def process_start_field_def parse_add_char_def set_state_def)
    also have "\<dots> = read_chars \<lparr>rd_state = IN_FIELD, rd_field = [c] @ cs, rd_fields = fs\<rparr> rest"
      by (rule read_unquoted [OF cs l assms(2)])
    finally have
      "read_chars \<lparr>rd_state = START_FIELD, rd_field = [], rd_fields = fs\<rparr> (csv_write_field f @ rest)
       = read_chars \<lparr>rd_state = IN_FIELD, rd_field = f, rd_fields = fs\<rparr> rest"
      using False Cons by (simp add: csv_write_field_def)
    with Cons show ?thesis by (intro exI [of _ IN_FIELD]) simp
  qed
qed

lemma read_field_comma:
  assumes "length f \<le> field_limit" "rest \<noteq> []"
  shows "read_chars \<lparr>rd_state = START_FIELD, rd_field = [], rd_fields = fs\<rparr>
           (csv_write_field f @ COMMA # rest)
         = read_chars \<lparr>rd_state = START_FIELD, rd_field = [], rd_fields = fs @ [f]\<rparr> rest"
proof -
  from read_field [OF assms(1), of "COMMA # rest" fs] obtain s where
    s: "read_chars \<lparr>rd_state = START_FIELD, rd_field = [], rd_fields = fs\<rparr>
               (csv_write_field f @ COMMA # rest)
             = read_chars \<lparr>rd_state = s, rd_field = f, rd_fields = fs\<rparr> (COMMA # rest)"
    and "s = QUOTE_IN_QUOTED_FIELD \<or> (s = IN_FIELD \<and> f \<noteq> []) \<or> (s = START_FIELD \<and> f = [])"
    by auto
  then show ?thesis using assms(2)
    by (auto simp: parse_process_char_def process_start_field_def parse_save_field_def)
qed

lemma read_field_end:
  assumes "length f \<le> field_limit"
  shows "read_chars \<lparr>rd_state = START_FIELD, rd_field = [], rd_fields = fs\<rparr>
           (csv_write_field f @ CR # LF # rest)
         = (case read_chars parse_reset rest of
              Inl e \<Rightarrow> Inl e
            | Inr records \<Rightarrow> Inr ((fs @ [f]) # records))"
proof -
  from read_field [OF assms(1), of "CR # LF # rest" fs] obtain s where
    s: "read_chars \<lparr>rd_state = START_FIELD, rd_field = [], rd_fields = fs\<rparr>
               (csv_write_field f @ CR # LF # rest)
             = read_chars \<lparr>rd_state = s, rd_field = f, rd_fields = fs\<rparr> (CR # LF # rest)"
    and "s = QUOTE_IN_QUOTED_FIELD \<or> (s = IN_FIELD \<and> f \<noteq> []) \<or> (s = START_FIELD \<and> f = [])"
    by auto
  then show ?thesis
    by (auto simp: parse_process_char_def process_start_field_def parse_save_field_def
        split: sum.splits)
qed

lemma read_fields:
  assumes "row \<noteq> []" "list_all (\<lambda>f. length f \<le> field_limit) row"
  shows "read_chars \<lparr>rd_state = START_FIELD, rd_field = [], rd_fields = fs\<rparr>
           (csv_join (map csv_write_field row) @ CR # LF # rest)
         = (case read_chars parse_reset rest of
              Inl e \<Rightarrow> Inl e
            | Inr records \<Rightarrow> Inr ((fs @ row) # records))"
  using assms
proof (induction row arbitrary: fs rule: csv_join.induct)
  case 1
  then show ?case by simp
next
  case (2 f)
  then show ?case using read_field_end [of f fs rest] by simp
next
  case (3 f g row)
  let ?tail = "csv_join (map csv_write_field (g # row)) @ CR # LF # rest"
  from 3(3) have f: "length f \<le> field_limit" and r: "list_all (\<lambda>f. length f \<le> field_limit) (g # row)"
    by simp_all
  have "read_chars \<lparr>rd_state = START_FIELD, rd_field = [], rd_fields = fs\<rparr>
           (csv_join (map csv_write_field (f # g # row)) @ CR # LF # rest)
        = read_chars \<lparr>rd_state = START_FIELD, rd_field = [], rd_fields = fs\<rparr>
           (csv_write_field f @ COMMA # ?tail)"
    by simp
  also have "\<dots> = read_chars \<lparr>rd_state = START_FIELD, rd_field = [], rd_fields = fs @ [f]\<rparr> ?tail"
    by (rule read_field_comma [OF f]) simp
  also have "\<dots> = (case read_chars parse_reset rest of
              Inl e \<Rightarrow> Inl e
            | Inr records \<Rightarrow> Inr (((fs @ [f]) @ g # row) # records))"
    by (rule 3(1) [OF _ r]) simp
  finally show ?case by (simp cong: sum.case_cong)
qed

lemma csv_write_field_Nil [simp]: "csv_write_field f = [] \<longleftrightarrow> f = []"
  by (auto simp: csv_write_field_def)

lemma csv_join_Nil: "csv_join (map csv_write_field row) = [] \<longleftrightarrow> row = [] \<or> row = [[]]"
  by (induction row rule: csv_join.induct) simp_all

lemma hd_write_field: "f \<noteq> [] \<Longrightarrow> hd (csv_write_field f) \<noteq> CR \<and> hd (csv_write_field f) \<noteq> LF"
  by (cases f) (auto simp: csv_write_field_def csv_special_def)

lemma hd_csv_join:
  "csv_join (map csv_write_field row) \<noteq> [] \<Longrightarrow>
     hd (csv_join (map csv_write_field row)) \<noteq> CR \<and> hd (csv_join (map csv_write_field row)) \<noteq> LF"
proof (induction row rule: csv_join.induct)
  case 1
  then show ?case by simp
next
  case (2 f)
  then show ?case using hd_write_field [of f] by simp
next
  case (3 f g row)
  then show ?case using hd_write_field [of f] by (cases "f = []") (simp_all add: hd_append)
qed

lemma read_from_record_start:
  assumes "c \<noteq> CR" "c \<noteq> LF"
  shows "read_chars parse_reset (c # cs)
         = read_chars \<lparr>rd_state = START_FIELD, rd_field = [], rd_fields = []\<rparr> (c # cs)"
  using assms by (simp add: parse_reset_def parse_process_char_def process_start_field_def
      parse_save_field_def parse_add_char_def set_state_def)

lemma read_row:
  assumes "list_all (\<lambda>f. length f \<le> field_limit) row"
  shows "read_chars parse_reset (csv_writerow row @ rest)
         = (case read_chars parse_reset rest of
              Inl e \<Rightarrow> Inl e
            | Inr records \<Rightarrow> Inr (row # records))"
proof (cases "row = []")
  case True
  then show ?thesis
    by (simp add: csv_writerow_def parse_reset_def parse_process_char_def cong: sum.case_cong)
next
  case False
  show ?thesis
  proof (cases "row = [[]]")
    case True
    then show ?thesis
      by (simp add: csv_writerow_def csv_write_field_def parse_reset_def parse_process_char_def
          process_start_field_def parse_save_field_def cong: sum.case_cong)
  next
    case ne: False
    with False have j: "csv_join (map csv_write_field row) \<noteq> []" by (simp add: csv_join_Nil)
    then obtain c cs where c: "csv_join (map csv_write_field row) = c # cs"
      by (cases "csv_join (map csv_write_field row)") auto
    with hd_csv_join [OF j] have cc: "c \<noteq> CR" "c \<noteq> LF" by auto
    let ?start = "\<lparr>rd_state = START_FIELD, rd_field = [], rd_fields = []\<rparr>"
    have "read_chars parse_reset (csv_writerow row @ rest)
          = read_chars parse_reset (c # cs @ CR # LF # rest)"
      using c False by (simp add: csv_writerow_def del: read_chars.simps)
    also have "\<dots> = read_chars ?start (c # cs @ CR # LF # rest)"
      using cc by (rule read_from_record_start)
    also have "\<dots> = read_chars ?start (csv_join (map csv_write_field row) @ CR # LF # rest)"
      using c by (simp del: read_chars.simps)
    also have "\<dots> = (case read_chars parse_reset rest of
              Inl e \<Rightarrow> Inl e
            | Inr records \<Rightarrow> Inr (([] @ row) # records))"
      using False assms by (rule read_fields)
    finally show ?thesis by (simp cong: sum.case_cong del: read_chars.simps)
  qed
qed

lemma csv_round_trip:
  assumes "fields_ok rows"
  shows "csv_reader (csv_writerows rows) = Inr rows"
  using assms
proof (induction rows)
  case Nil
  then show ?case by (simp add: csv_reader_def csv_writerows_def parse_reset_def)
next
  case (Cons row rows)
  then have "list_all (\<lambda>f. length f \<le> field_limit) row" "fields_ok rows"
    by (simp_all add: fields_ok_def)
  with Cons.IH read_row [of row "csv_writerows rows"] show ?case
    by (simp add: csv_reader_def csv_writerows_def)
qed

lemma map_of_keys:
  "distinct (map fst d) \<Longrightarrow>
     map (\<lambda>k. case map_of (d @ e) k of None \<Rightarrow> [] | Some v \<Rightarrow> csv_field v) (map fst d)
     = map (csv_field \<circ> snd) d"
proof (induction d)
  case Nil
  then show ?case by simp
next
  case (Cons a d)
  obtain k v where a: "a = (k, v)" by (cases a)
  from Cons.prems a have "k \<notin> fst ` set d" by auto
  then have "map (\<lambda>x. case map_of ((k, v) # d @ e) x of None \<Rightarrow> [] | Some v \<Rightarrow> csv_field v) (map fst d)
      = map (\<lambda>x. case map_of (d @ e) x of None \<Rightarrow> [] | Some v \<Rightarrow> csv_field v) (map fst d)"
    by (intro map_cong) auto
  with Cons a show ?case by simp
qed

lemma play_keys_distinct: "distinct (tl play_headers)" "''Index'' \<notin> set (tl play_headers)"
  "play_headers = ''Index'' # tl play_headers"
  by (simp_all add: play_headers_def)

lemma dict_to_list_play:
  assumes "has_play_keys d"
  shows "dict_to_list play_headers (d @ [(''Index'', PInt idx)])
         = Inr (str_int idx # map (csv_field \<circ> snd) d)"
proof -
  from assms have k: "map fst d = tl play_headers" by (simp add: has_play_keys_def)
  then have "set (map fst d) = set (tl play_headers)" by simp
  then have ks: "fst ` set d = set (tl play_headers)" by simp
  from k play_keys_distinct(1) have d: "distinct (map fst d)" by simp
  from ks play_keys_distinct(2) have i: "''Index'' \<notin> fst ` set d" by simp
  have sub: "fst ` set d \<subseteq> set play_headers"
  proof -
    have "set (tl play_headers) \<subseteq> set (''Index'' # tl play_headers)" by auto
    with ks play_keys_distinct(3) show ?thesis by simp
  qed
  have extras: "\<not> list_ex (\<lambda>(k, v). k \<notin> set play_headers) (d @ [(''Index'', PInt idx)])"
  proof -
    have "''Index'' \<in> set play_headers" by (subst play_keys_distinct(3)) simp
    with sub show ?thesis by (auto simp: list_ex_iff)
  qed
  from i have "map_of d ''Index'' = None" by (simp add: map_of_eq_None_iff)
  then have idx: "map_of (d @ [(''Index'', PInt idx)]) ''Index'' = Some (PInt idx)"
    by (simp add: map_add_def)
  have "map (\<lambda>k. case map_of (d @ [(''Index'', PInt idx)]) k of None \<Rightarrow> [] | Some v \<Rightarrow> csv_field v)
          (''Index'' # map fst d)
        = str_int idx # map (csv_field \<circ> snd) d"
    using map_of_keys [OF d, of "[(''Index'', PInt idx)]"] idx by (simp del: map_of_append)
  with k play_keys_distinct(3) have
    "map (\<lambda>k. case map_of (d @ [(''Index'', PInt idx)]) k of None \<Rightarrow> [] | Some v \<Rightarrow> csv_field v)
          play_headers
        = str_int idx # map (csv_field \<circ> snd) d"
    by (simp only: flip: play_keys_distinct(3))
  with extras show ?thesis by (simp add: dict_to_list_def)
qed

lemma write_rows_plays:
  "list_all has_play_keys data \<Longrightarrow>
     write_rows written idx data = (None, written @ indexed_lines idx data)"
proof (induction data arbitrary: written idx)
  case Nil
  then show ?case by simp
next
  case (Cons d data)
  then show ?case by (simp add: dict_to_list_play)
qed

lemma fields_ok_headers: "fields_ok [rookie_headers]" "fields_ok [play_headers]"
  by (simp_all add: fields_ok_def rookie_headers_def play_headers_def field_limit_def)

lemma fields_ok_Cons: "fields_ok [h] \<Longrightarrow> fields_ok rows \<Longrightarrow> fields_ok (h # rows)"
  by (simp add: fields_ok_def)

lemma a_play_made:
  "a_play = make_play ''t1''
       [''0-0'', ''0'', ''---'', ''3,(1-1) CBX'', [], ''NYY'', ''A. Batter'', ''B. Pitcher'', ''2%'', ''52%'',
        ''Single to CF'']"
  by code_simp

lemma a_play_keys: "list_all has_play_keys [a_play]"
  by (simp add: has_play_keys_def a_play_def play_headers_def)

lemma str_int_1: "str_int 1 = ''1''"
  by code_simp

lemma a_play_lines:
  "indexed_lines 1 [a_play] = [''1'' # map (csv_field \<circ> snd) a_play]"
  by (simp add: str_int_1)

lemma a_play_ok: "fields_ok (indexed_lines 1 [a_play])"
  by (simp add: fields_ok_def a_play_def field_limit_def str_int_1)

text \<open>
  C3, as stated, on \<^verbatim>\<open>write_to_csv\<close> of hw2-download with one play: the file read back holds
  the header line and a line that is the play preceded by its index, not the play.
\<close>

theorem write_to_csv_counterexample:
  "csv_reader (csv_writerows
      (the (snd (write_to_csv [a_play] ''play_by_play.csv'' Map.empty) ''play_by_play.csv'')))
     = Inr [play_headers, ''1'' # map (csv_field \<circ> snd) a_play]
   \<and> ''1'' # map (csv_field \<circ> snd) a_play \<noteq> map (csv_field \<circ> snd) a_play"
proof -
  have "write_rows [play_headers] 1 [a_play] = (None, [play_headers] @ indexed_lines 1 [a_play])"
    using a_play_keys by (rule write_rows_plays)
  then have w: "the (snd (write_to_csv [a_play] ''play_by_play.csv'' Map.empty) ''play_by_play.csv'')
             = [play_headers, ''1'' # map (csv_field \<circ> snd) a_play]"
    by (simp add: write_to_csv_def a_play_lines del: indexed_lines.simps)
  have "fields_ok (play_headers # indexed_lines 1 [a_play])"
    using fields_ok_headers(2) a_play_ok by (rule fields_ok_Cons)
  then have "csv_reader (csv_writerows (play_headers # indexed_lines 1 [a_play]))
             = Inr (play_headers # indexed_lines 1 [a_play])"
    by (rule csv_round_trip)
  with w show ?thesis by (simp add: a_play_lines del: indexed_lines.simps)
qed

text \<open>
  C3, amended: when no field is longer than the 131072 characters the reader accepts, the
  file \<^verbatim>\<open>create_csv\<close> writes (in either rookie-contract script), read back by the CSV reader,
  gives the header row followed by the same rows, with the same fields in the same order;
  the file \<^verbatim>\<open>write_to_csv\<close> of hw2-download writes for a list of plays gives, read back, its
  header row followed by one row for each play, in order: the number of the play, counted
  from 1, and then the twelve values of the play.
\<close>

theorem csv_files_round_trip:
  "(fields_ok data \<longrightarrow>
      csv_reader (csv_writerows (the (fst (create_csv data start_year end_year fs)
                                        (rooks_filename start_year end_year))))
        = Inr (rookie_headers # data)
      \<and> csv_reader (csv_writerows (the (fst (create_csv_all_time data filename fs) filename)))
          = Inr (rookie_headers # data))
   \<and> (list_all has_play_keys plays \<and> fields_ok (indexed_lines 1 plays) \<longrightarrow>
        fst (write_to_csv plays filename fs) = None
        \<and> csv_reader (csv_writerows (the (snd (write_to_csv plays filename fs) filename)))
            = Inr (play_headers # indexed_lines 1 plays))"
proof (intro conjI impI)
  assume ok: "fields_ok data"
  then have "fields_ok (rookie_headers # data)"
    by (rule fields_ok_Cons [OF fields_ok_headers(1)])
  then have r: "csv_reader (csv_writerows (rookie_headers # data)) = Inr (rookie_headers # data)"
    by (rule csv_round_trip)
  then show "csv_reader (csv_writerows (the (fst (create_csv data start_year end_year fs)
                                        (rooks_filename start_year end_year))))
        = Inr (rookie_headers # data)"
    by (simp add: create_csv_def Let_def)
  from r show "csv_reader (csv_writerows (the (fst (create_csv_all_time data filename fs) filename)))
          = Inr (rookie_headers # data)"
    by (simp add: create_csv_all_time_def)
next
  assume a: "list_all has_play_keys plays \<and> fields_ok (indexed_lines 1 plays)"
  then have w: "write_rows [play_headers] 1 plays = (None, [play_headers] @ indexed_lines 1 plays)"
    by (intro write_rows_plays) simp
  then show "fst (write_to_csv plays filename fs) = None"
    by (simp add: write_to_csv_def)
  from a have "fields_ok (play_headers # indexed_lines 1 plays)"
    by (intro fields_ok_Cons [OF fields_ok_headers(2)]) simp
  then have "csv_reader (csv_writerows (play_headers # indexed_lines 1 plays))
             = Inr (play_headers # indexed_lines 1 plays)"
    by (rule csv_round_trip)
  with w show "csv_reader (csv_writerows (the (snd (write_to_csv plays filename fs) filename)))
            = Inr (play_headers # indexed_lines 1 plays)"
    by (simp add: write_to_csv_def)
qed


theorem csv_files_round_trip_witness:
  "fields_ok [''2018'' # ten_cells]
   \<and> csv_reader (csv_writerows (the (fst (create_csv [''2018'' # ten_cells] 2020 2021 Map.empty)
                                        (rooks_filename 2020 2021))))
        = Inr (rookie_headers # [''2018'' # ten_cells])
   \<and> csv_reader (csv_writerows (the (fst (create_csv_all_time [''2018'' # ten_cells]
                                          ''rooks_all_time.csv'' Map.empty) ''rooks_all_time.csv'')))
        = Inr (rookie_headers # [''2018'' # ten_cells])
   \<and> list_all has_play_keys [a_play] \<and> fields_ok (indexed_lines 1 [a_play])
   \<and> fst (write_to_csv [a_play] ''rooks_all_time.csv'' Map.empty) = None
   \<and> csv_reader (csv_writerows (the (snd (write_to_csv [a_play] ''rooks_all_time.csv'' Map.empty)
                                        ''rooks_all_time.csv'')))
        = Inr (play_headers # indexed_lines 1 [a_play])"
proof -
  have h1: "fields_ok [''2018'' # ten_cells]"
    by (simp add: fields_ok_def ten_cells_def field_limit_def)
  from csv_files_round_trip [of "[''2018'' # ten_cells]" 2020 2021 Map.empty "''rooks_all_time.csv''"
      "[a_play]"] h1 a_play_keys a_play_ok
  show ?thesis by blast
qed


end
